theory Spec2Isabelle
  imports Complex_Main "HOL-Library.Monad_Syntax" "HOL-Library.Sublist"
begin

section \<open>Sine model analysis: a shallow embedding of sinemodelanal.cpp\<close>

text \<open>
  The C++ type \<open>Real\<close> (a binary float) is modelled by \<^typ>\<open>real\<close>: comparisons, copies and
  the branch structure of the code are kept, rounding and NaN are not. A \<open>std::vector<int>\<close>
  is an \<^typ>\<open>int list\<close>, a loop counter is a \<^typ>\<open>nat\<close>.

  \<open>operator[]\<close> and \<open>erase\<close> of \<open>std::vector\<close> are unchecked: outside the vector the C++
  behaviour is undefined. Every read, write and erase of the model is checked, and a
  function that would leave a vector returns \<open>None\<close>. A result \<open>Some r\<close> is a run in which
  every access stayed inside its vector.
\<close>

subsection \<open>Vector primitives\<close>

definition read_at :: "'a list \<Rightarrow> int \<Rightarrow> 'a option" where
  "read_at v i = (if 0 \<le> i \<and> i < int (length v) then Some (v ! nat i) else None)"

definition write_at :: "'a list \<Rightarrow> int \<Rightarrow> 'a \<Rightarrow> 'a list option" where
  "write_at v i x = (if 0 \<le> i \<and> i < int (length v) then Some (v[nat i := x]) else None)"

definition erase_at :: "'a list \<Rightarrow> int \<Rightarrow> 'a list option" where
  "erase_at v i =
     (if 0 \<le> i \<and> i < int (length v) then Some (take (nat i) v @ drop (Suc (nat i)) v)
      else None)"

text \<open>\<open>v.resize(n)\<close>: the first \<open>n\<close> elements are kept, missing ones are zero.\<close>

definition resize :: "nat \<Rightarrow> real list \<Rightarrow> real list" where
  "resize n v = take n v @ replicate (n - length v) 0"

subsection \<open>Support functions (lines 44--90)\<close>

type_synonym mypair = "int \<times> real"

definition comparator :: "mypair \<Rightarrow> mypair \<Rightarrow> bool" where
  "comparator l r = (snd l < snd r)"

text \<open>
  \<open>std::sort\<close> with a comparator. The standard leaves the relative order of equivalent
  elements open; this insertion sort keeps them in input order, which is one of the orders
  \<open>std::sort\<close> may produce and the only one when the keys are distinct.
\<close>

fun sort_insert :: "('a \<Rightarrow> 'a \<Rightarrow> bool) \<Rightarrow> 'a \<Rightarrow> 'a list \<Rightarrow> 'a list" where
  "sort_insert lt x [] = [x]"
| "sort_insert lt x (y # ys) = (if lt y x then y # sort_insert lt x ys else x # y # ys)"

definition std_sort :: "('a \<Rightarrow> 'a \<Rightarrow> bool) \<Rightarrow> 'a list \<Rightarrow> 'a list" where
  "std_sort lt xs = foldr (sort_insert lt) xs []"

text \<open>The first loop of \<open>sort_indexes\<close>: \<open>pairs[i] = (i, v[i])\<close>, from index \<open>i\<close> on.\<close>

fun index_pairs :: "nat \<Rightarrow> real list \<Rightarrow> mypair list" where
  "index_pairs i [] = []"
| "index_pairs i (x # xs) = (int i, x) # index_pairs (Suc i) xs"

definition sort_indexes :: "int list \<Rightarrow> real list \<Rightarrow> int list" where
  "sort_indexes idx v = idx @ map fst (std_sort comparator (index_pairs 0 v))"

fun copy_int_vector_from_indexes :: "int list \<Rightarrow> int list \<Rightarrow> int list \<Rightarrow> int list option" where
  "copy_int_vector_from_indexes out v [] = Some out"
| "copy_int_vector_from_indexes out v (i # idx) =
     do { x \<leftarrow> read_at v i; copy_int_vector_from_indexes (out @ [x]) v idx }"

text \<open>
  \<open>erase_vector_from_indexes\<close> erases one position after the other from the same vector,
  so each erasure shifts the elements behind it before the next index is used.
\<close>

fun erase_vector_from_indexes :: "real list \<Rightarrow> int list \<Rightarrow> real list option" where
  "erase_vector_from_indexes v [] = Some v"
| "erase_vector_from_indexes v (i # idx) =
     do { v' \<leftarrow> erase_at v i; erase_vector_from_indexes v' idx }"

subsection \<open>Track continuation (lines 150--347)\<close>

text \<open>
  The loops of lines 176, 180 and 242--245 collect the indexes at which a vector satisfies
  a test, counting from \<open>i\<close>.
\<close>

fun indexes_where :: "('a \<Rightarrow> bool) \<Rightarrow> nat \<Rightarrow> 'a list \<Rightarrow> int list" where
  "indexes_where P i [] = []"
| "indexes_where P i (x # xs) =
     (if P x then int i # indexes_where P (Suc i) xs else indexes_where P (Suc i) xs)"

text \<open>
  Lines 223--230: the search over the incoming tracks still unmatched. \<open>ts\<close> is the part of
  \<open>incomingTracks\<close> from position \<open>k\<close> on. The running \<open>freqDistance\<close> is replaced when it
  is smaller than the distance of track \<open>k\<close>.
\<close>

fun closest_track ::
  "real list \<Rightarrow> real list \<Rightarrow> int \<Rightarrow> int list \<Rightarrow> nat \<Rightarrow> int \<times> real \<Rightarrow> (int \<times> real) option" where
  "closest_track pfreqt tfreq i [] k (closestIdx, freqDistance) = Some (closestIdx, freqDistance)"
| "closest_track pfreqt tfreq i (t # ts) k (closestIdx, freqDistance) =
     do {
       p \<leftarrow> read_at pfreqt i;
       f \<leftarrow> read_at tfreq t;
       if freqDistance < \<bar>p - f\<bar>
       then closest_track pfreqt tfreq i ts (Suc k) (int k, \<bar>p - f\<bar>)
       else closest_track pfreqt tfreq i ts (Suc k) (closestIdx, freqDistance)
     }"

text \<open>
  Lines 217--236: the loop over \<open>magOrder\<close>; the state is \<open>incomingTracks\<close> and
  \<open>newTracks\<close>. \<open>pfreqt\<close> is a reference to \<open>peakFrequencies\<close>, so both names read the same
  vector.
\<close>

fun match_peaks ::
  "real \<Rightarrow> real \<Rightarrow> real list \<Rightarrow> real list \<Rightarrow> int list \<Rightarrow> int list \<times> int list \<Rightarrow>
   (int list \<times> int list) option" where
  "match_peaks freqDevOffset freqDevSlope pfreqt tfreq [] (incomingTracks, newTracks) =
     Some (incomingTracks, newTracks)"
| "match_peaks freqDevOffset freqDevSlope pfreqt tfreq (i # magOrder) (incomingTracks, newTracks) =
     (if length incomingTracks = 0 then Some (incomingTracks, newTracks)
      else do {
        (closestIdx, freqDistance) \<leftarrow> closest_track pfreqt tfreq i incomingTracks 0 (0, 10 ^ 10);
        p \<leftarrow> read_at pfreqt i;
        if freqDistance < freqDevOffset + freqDevSlope * p
        then do {
          t \<leftarrow> read_at incomingTracks closestIdx;
          newTracks' \<leftarrow> write_at newTracks t i;
          incomingTracks' \<leftarrow> erase_at incomingTracks closestIdx;
          match_peaks freqDevOffset freqDevSlope pfreqt tfreq magOrder (incomingTracks', newTracks')
        }
        else match_peaks freqDevOffset freqDevSlope pfreqt tfreq magOrder (incomingTracks, newTracks)
      })"

text \<open>
  The body shared by the loops of lines 255--259, 304--309 and 323--328: for each pair
  (slot, peak index), the peak's frequency, magnitude and phase are written into the slot
  of the three output vectors.
\<close>

fun write_slots ::
  "real list \<Rightarrow> real list \<Rightarrow> real list \<Rightarrow> (int \<times> int) list \<Rightarrow>
   real list \<times> real list \<times> real list \<Rightarrow> (real list \<times> real list \<times> real list) option" where
  "write_slots pfreqt pmagt pphaset [] (tfreqn, tmagn, tphasen) = Some (tfreqn, tmagn, tphasen)"
| "write_slots pfreqt pmagt pphaset ((s, p) # sps) (tfreqn, tmagn, tphasen) =
     do {
       f \<leftarrow> read_at pfreqt p;
       tfreqn' \<leftarrow> write_at tfreqn s f;
       m \<leftarrow> read_at pmagt p;
       tmagn' \<leftarrow> write_at tmagn s m;
       ph \<leftarrow> read_at pphaset p;
       tphasen' \<leftarrow> write_at tphasen s ph;
       write_slots pfreqt pmagt pphaset sps (tfreqn', tmagn', tphasen')
     }"

text \<open>Lines 329--334: the peaks appended as new slots.\<close>

fun push_slots ::
  "real list \<Rightarrow> real list \<Rightarrow> real list \<Rightarrow> int list \<Rightarrow>
   real list \<times> real list \<times> real list \<Rightarrow> (real list \<times> real list \<times> real list) option" where
  "push_slots pfreqt pmagt pphaset [] (tfreqn, tmagn, tphasen) = Some (tfreqn, tmagn, tphasen)"
| "push_slots pfreqt pmagt pphaset (p # ps) (tfreqn, tmagn, tphasen) =
     do {
       f \<leftarrow> read_at pfreqt p;
       m \<leftarrow> read_at pmagt p;
       ph \<leftarrow> read_at pphaset p;
       push_slots pfreqt pmagt pphaset ps (tfreqn @ [f], tmagn @ [m], tphasen @ [ph])
     }"

text \<open>
  Lines 282--286: the loop that collects the empty incoming slots. Its bound is the size
  of \<open>emptyt\<close> itself, the vector it fills.
\<close>

function empty_slots :: "real list \<Rightarrow> nat \<Rightarrow> int list \<Rightarrow> int list option" where
  "empty_slots tfreq i emptyt =
     (if i < length emptyt
      then do {
        f \<leftarrow> read_at tfreq (int i);
        empty_slots tfreq (Suc i) (if f = 0 then emptyt @ [int i] else emptyt)
      }
      else Some emptyt)"
  by pat_completeness auto
termination
  by (relation "measure (\<lambda>(tfreq, i, emptyt). length tfreq - i)")
     (auto simp: read_at_def split: if_splits)

declare empty_slots.simps [simp del]

record tracking =
  peakMags :: "real list"
  peakFrequencies :: "real list"
  peakPhases :: "real list"
  tfreqn :: "real list"
  tmagn :: "real list"
  tphasen :: "real list"

text \<open>
  Lines 174--237, the matching pass: the incoming tracks (slots of \<open>tfreq\<close> with a positive
  frequency), \<open>newTracks\<close> initialised to \<open>-1\<close>, the order \<open>magOrder\<close> in which the peaks are
  visited, and the loop. \<open>pindexes\<close> (line 176) is computed and never read again.
  \<open>incomingTracks\<close> is declared as a vector of \<open>Real\<close> but holds slot indexes and is used
  as an index; it is an \<^typ>\<open>int list\<close> here. The value is \<open>newTracks\<close> after the loop.
\<close>

definition continue_tracks ::
  "real \<Rightarrow> real \<Rightarrow> real list \<Rightarrow> real list \<Rightarrow> real list \<Rightarrow> int list option" where
  "continue_tracks freqDevOffset freqDevSlope peakMags0 peakFrequencies0 tfreq =
   (let pindexes = indexes_where (\<lambda>f. f > 0) 0 peakFrequencies0;
        incomingTracks = indexes_where (\<lambda>f. f > 0) 0 tfreq;
        newTracks = replicate (length tfreq) (- 1);
        magOrder = sort_indexes [] peakMags0
    in if length incomingTracks > 0
       then map_option snd
              (match_peaks freqDevOffset freqDevSlope peakFrequencies0 tfreq magOrder
                 (incomingTracks, newTracks))
       else Some newTracks)"

text \<open>
  Lines 240--269: the matched peaks are written into their track slots and then erased
  from the three peak vectors. The value is the peak vectors and the output vectors.
\<close>

definition assign_tracks ::
  "int list \<Rightarrow> real list \<times> real list \<times> real list \<Rightarrow> real list \<times> real list \<times> real list \<Rightarrow>
   ((real list \<times> real list \<times> real list) \<times> (real list \<times> real list \<times> real list)) option" where
  "assign_tracks newTracks peaks outs =
   (case peaks of (pfreqt, pmagt, pphaset) \<Rightarrow>
    let indext = indexes_where (\<lambda>p. p \<noteq> - 1) 0 newTracks
    in if length indext > 0
       then do {
         indexp \<leftarrow> copy_int_vector_from_indexes [] newTracks indext;
         outs' \<leftarrow> write_slots pfreqt pmagt pphaset (zip indext indexp) outs;
         pfreqt' \<leftarrow> erase_vector_from_indexes pfreqt indexp;
         pmagt' \<leftarrow> erase_vector_from_indexes pmagt indexp;
         pphaset' \<leftarrow> erase_vector_from_indexes pphaset indexp;
         Some ((pfreqt', pmagt', pphaset'), outs')
       }
       else Some (peaks, outs))"

text \<open>
  Lines 282--336, the spawn pass: the empty slots \<open>emptyt\<close>, the order \<open>peaksleft\<close> of the
  peaks that are left, and the two branches that place them. The first branch writes peak
  \<open>i\<close> into slot \<open>emptyt[i]\<close>, the second writes peak \<open>peaksleft[i]\<close> into slot \<open>i\<close> for
  \<open>i < emptyt.size()\<close> and appends the peaks \<open>peaksleft[i]\<close> from \<open>i = emptyt.size()\<close> on.
\<close>

definition spawn_tracks ::
  "real list \<Rightarrow> real list \<times> real list \<times> real list \<Rightarrow> real list \<times> real list \<times> real list \<Rightarrow>
   (real list \<times> real list \<times> real list) option" where
  "spawn_tracks tfreq peaks outs =
   (case peaks of (pfreqt, pmagt, pphaset) \<Rightarrow>
    do {
      emptyt \<leftarrow> empty_slots tfreq 0 [];
      let peaksleft = sort_indexes [] pmagt;
      if length peaksleft > 0 \<and> length emptyt \<ge> length peaksleft
      then write_slots pfreqt pmagt pphaset (zip emptyt (map int [0..<length peaksleft])) outs
      else if length peaksleft > 0 \<and> length emptyt < length peaksleft
      then do {
        outs' \<leftarrow> write_slots pfreqt pmagt pphaset (zip (map int [0..<length emptyt]) peaksleft) outs;
        push_slots pfreqt pmagt pphaset (drop (length emptyt) peaksleft) outs'
      }
      else Some outs
    })"

text \<open>
  \<open>sinusoidalTracking\<close>. The three peak vectors and the three output vectors are passed by
  reference (\<open>pfreqt\<close>, \<open>pmagt\<close> and \<open>pphaset\<close> are references to the peak vectors); the
  result holds all six as the call leaves them. Lines 157--158 assign 20 and 0.01 to the
  arguments \<open>freqDevOffset\<close> and \<open>freqDevSlope\<close>; lines 170--172 resize the output vectors.
\<close>

definition sinusoidalTracking ::
  "real list \<Rightarrow> real list \<Rightarrow> real list \<Rightarrow> real list \<Rightarrow> real \<Rightarrow> real \<Rightarrow>
   real list \<Rightarrow> real list \<Rightarrow> real list \<Rightarrow> tracking option" where
  "sinusoidalTracking peakMags0 peakFrequencies0 peakPhases0 tfreq freqDevOffset freqDevSlope
     tfreqn0 tmagn0 tphasen0 =
   (let freqDevOffset = 20;
        freqDevSlope = 0.01;
        tfreqn1 = resize (length tfreq) tfreqn0;
        tmagn1 = resize (length tfreq) tmagn0;
        tphasen1 = resize (length tfreq) tphasen0
    in do {
      newTracks \<leftarrow> continue_tracks freqDevOffset freqDevSlope peakMags0 peakFrequencies0 tfreq;
      ((pfreqt, pmagt, pphaset), outs) \<leftarrow>
        assign_tracks newTracks (peakFrequencies0, peakMags0, peakPhases0) (tfreqn1, tmagn1, tphasen1);
      (tfreqn3, tmagn3, tphasen3) \<leftarrow> spawn_tracks tfreq (pfreqt, pmagt, pphaset) outs;
      Some \<lparr>peakMags = pmagt, peakFrequencies = pfreqt, peakPhases = pphaset,
            tfreqn = tfreqn3, tmagn = tmagn3, tphasen = tphasen3\<rparr>
    })"

subsection \<open>Parameters and configuration (lines 98--119)\<close>

text \<open>The parameters declared by \<open>declareParameters\<close> in the header.\<close>

record parameters =
  sampleRate :: real
  maxPeaks :: int
  maxFrequency :: real
  minFrequency :: real
  magnitudeThreshold :: real
  orderBy :: string

text \<open>The default values given there.\<close>

definition default_parameters :: parameters where
  "default_parameters =
     \<lparr>sampleRate = 44100, maxPeaks = 100, maxFrequency = 5000, minFrequency = 0,
      magnitudeThreshold = 0, orderBy = ''frequency''\<rparr>"

text \<open>
  The named arguments that \<open>configure\<close> passes to \<open>_peakDetect->configure\<close> in lines
  111--117.
\<close>

record peak_detection_configuration =
  pd_interpolate :: bool
  pd_range :: real
  pd_maxPeaks :: int
  pd_minPosition :: real
  pd_maxPosition :: real
  pd_threshold :: real
  pd_orderBy :: string

datatype error = EssentiaException string

text \<open>
  Modelled from the spec: \<open>Parameter::toLower\<close> is declared outside these sources. The
  ordering mode is compared case-insensitively: the upper-case ASCII letters of the
  string are replaced by their lower-case letters, every other character is kept. The
  codes of \<open>A\<close> to \<open>Z\<close> are 65 to 90, and a lower-case letter is its upper-case letter
  with the bit of value 32 set.
\<close>

definition lower_char :: "char \<Rightarrow> char" where
  "lower_char c =
     (if (65 :: nat) \<le> of_char c \<and> of_char c \<le> (90 :: nat)
      then (case c of Char b0 b1 b2 b3 b4 b5 b6 b7 \<Rightarrow> Char b0 b1 b2 b3 b4 True b6 b7)
      else c)"

definition toLower :: "string \<Rightarrow> string" where
  "toLower s = map lower_char s"

text \<open>
  \<open>configure\<close>. The peak detection algorithm behind \<open>_peakDetect\<close> is a collaborator
  outside these sources, so its \<open>configure\<close> is the argument \<open>peakDetect_configure\<close>: given
  the named arguments and the collaborator's state, it either returns or throws, and
  leaves a state. The value of \<open>configure\<close> is the exception that leaves it, if any, and
  the collaborator's state then. For an unsupported ordering the exception of line 108 is
  thrown before the collaborator is called; otherwise the outcome is the outcome of the
  collaborator's \<open>configure\<close>, whose exception is not caught.
\<close>

definition configure ::
  "(peak_detection_configuration \<Rightarrow> 'pd \<Rightarrow> (error + unit) \<times> 'pd) \<Rightarrow> parameters \<Rightarrow> 'pd \<Rightarrow>
   (error + unit) \<times> 'pd" where
  "configure peakDetect_configure params peakDetect =
   (let orderBy0 = toLower (orderBy params);
        delegate = (\<lambda>ob. peakDetect_configure
          \<lparr>pd_interpolate = True, pd_range = sampleRate params / 2,
           pd_maxPeaks = maxPeaks params, pd_minPosition = minFrequency params,
           pd_maxPosition = maxFrequency params,
           pd_threshold = magnitudeThreshold params, pd_orderBy = ob\<rparr> peakDetect)
    in if orderBy0 = ''magnitude'' then delegate ''amplitude''
       else if orderBy0 = ''frequency'' then delegate ''position''
       else (Inl (EssentiaException
               (''Unsupported ordering type: '' @ [CHR 0x27] @ orderBy0 @ [CHR 0x27])),
             peakDetect))"

text \<open>
  Modelled from the spec: the Peak Picker (the peak detection algorithm) is not among
  these sources. The spec gives its interface only. Its ordering modes are \<open>position\<close> and
  \<open>amplitude\<close>; \<open>magnitude\<close> is mapped to a descending-amplitude order and \<open>frequency\<close> to
  an ascending-position order when delegating to it (section 6), so \<open>amplitude\<close> names the
  descending-amplitude order and \<open>position\<close> the ascending-position order.
\<close>

datatype peak_order = AscendingPosition | DescendingAmplitude

definition peak_picker_order :: "string \<Rightarrow> peak_order option" where
  "peak_picker_order ob =
     (if ob = ''amplitude'' then Some DescendingAmplitude
      else if ob = ''position'' then Some AscendingPosition
      else None)"

text \<open>
  Modelled from the spec: a Peak Picker whose input-domain violations are configuration
  errors (sections 4.1 and 7, with a malformed range as the example). This one refuses a
  range of positions whose minimum is not below its maximum and leaves its state as it
  was; otherwise it keeps the configuration. Its state is the configuration last
  accepted, \<open>None\<close> before the first. The spec does not give the text of its error message,
  which is the argument \<open>message\<close>.
\<close>

definition peak_picker_configure ::
  "string \<Rightarrow> peak_detection_configuration \<Rightarrow> peak_detection_configuration option \<Rightarrow>
   (error + unit) \<times> peak_detection_configuration option" where
  "peak_picker_configure message cfg peakDetect =
     (if pd_maxPosition cfg \<le> pd_minPosition cfg
      then (Inl (EssentiaException message), peakDetect)
      else (Inr (), Some cfg))"

subsection \<open>Phase interpolation (lines 351--379)\<close>

text \<open>The conversion \<open>int(x)\<close> of a floating-point value drops the fractional part.\<close>

definition to_int :: "real \<Rightarrow> int" where
  "to_int x = (if 0 \<le> x then \<lfloor>x\<rfloor> else \<lceil>x\<rceil>)"

text \<open>
  The body of the loop, for one peak frequency. Both operands of the comparison with
  \<open>M_PI\<close> are read before either branch of the conditional expression is taken.
\<close>

definition interpolate_peak :: "parameters \<Rightarrow> real list \<Rightarrow> real \<Rightarrow> real option" where
  "interpolate_peak params fftphase freq =
   (let fftSize = int (length fftphase);
        pos = real_of_int fftSize * (freq / (sampleRate params / 2));
        idx = to_int (0.5 + pos);
        a = pos - real_of_int idx
    in if a < 0 \<and> idx > 0
       then do {
         l \<leftarrow> read_at fftphase (idx - 1);
         c \<leftarrow> read_at fftphase idx;
         Some (if \<bar>l - c\<bar> > pi then a * l + (1 - a) * c else c)
       }
       else if idx < fftSize - 1
       then do {
         r \<leftarrow> read_at fftphase (idx + 1);
         c \<leftarrow> read_at fftphase idx;
         Some (if \<bar>r - c\<bar> > pi then a * r + (1 - a) * c else c)
       }
       else read_at fftphase idx)"

text \<open>The loop over the peaks, from index \<open>i\<close> on; \<open>fs\<close> are the frequencies left.\<close>

fun interpolate_from ::
  "parameters \<Rightarrow> real list \<Rightarrow> nat \<Rightarrow> real list \<Rightarrow> real list \<Rightarrow> real list option" where
  "interpolate_from params fftphase i [] peakPhases0 = Some peakPhases0"
| "interpolate_from params fftphase i (f # fs) peakPhases0 =
     do {
       ph \<leftarrow> interpolate_peak params fftphase f;
       peakPhases1 \<leftarrow> write_at peakPhases0 (int i) ph;
       interpolate_from params fftphase (Suc i) fs peakPhases1
     }"

definition phaseInterpolation ::
  "parameters \<Rightarrow> real list \<Rightarrow> real list \<Rightarrow> real list \<Rightarrow> real list option" where
  "phaseInterpolation params fftphase peakFrequencies0 peakPhases0 =
     interpolate_from params fftphase 0 peakFrequencies0
       (resize (length peakFrequencies0) peakPhases0)"

section \<open>Properties\<close>

subsection \<open>Facts about the vector primitives and the loops\<close>

lemma empty_slots_start: "empty_slots tfreq 0 [] = Some []"
  by (simp add: empty_slots.simps)

lemma length_resize: "length (resize n v) = n"
  by (simp add: resize_def)

lemma set_resize_Nil: "set (resize n []) \<subseteq> {0}"
  by (auto simp: resize_def)

lemma read_at_mem: "read_at v i = Some x \<Longrightarrow> x \<in> set v"
  by (auto simp: read_at_def split: if_splits)

lemma write_at_length: "write_at v i x = Some v' \<Longrightarrow> length v' = length v"
  by (auto simp: write_at_def split: if_splits)

lemma write_at_set: "write_at v i x = Some v' \<Longrightarrow> set v' \<subseteq> insert x (set v)"
  by (auto simp: write_at_def split: if_splits dest: subsetD [OF set_update_subset_insert])

lemma erase_at_set: "erase_at v i = Some v' \<Longrightarrow> set v' \<subseteq> set v"
  by (auto simp: erase_at_def split: if_splits dest: in_set_takeD in_set_dropD)

lemma erase_vector_set: "erase_vector_from_indexes v idx = Some v' \<Longrightarrow> set v' \<subseteq> set v"
proof (induction idx arbitrary: v)
  case Nil
  then show ?case by simp
next
  case (Cons i idx)
  from Cons.prems obtain w where w: "erase_at v i = Some w"
    and rest: "erase_vector_from_indexes w idx = Some v'"
    by (auto simp: bind_eq_Some_conv)
  from Cons.IH [OF rest] erase_at_set [OF w] show ?case by blast
qed

lemma write_slots_length:
  "write_slots pf pm pp sps (tf, tm, tp) = Some (tf', tm', tp') \<Longrightarrow>
   length tf' = length tf \<and> length tm' = length tm \<and> length tp' = length tp"
proof (induction sps arbitrary: tf tm tp)
  case Nil
  then show ?case by simp
next
  case (Cons sp sps)
  obtain s p where sp: "sp = (s, p)" by (cases sp)
  from Cons.prems obtain f m ph tf1 tm1 tp1 where
    w: "write_at tf s f = Some tf1" "write_at tm s m = Some tm1" "write_at tp s ph = Some tp1"
    and rest: "write_slots pf pm pp sps (tf1, tm1, tp1) = Some (tf', tm', tp')"
    by (auto simp: sp bind_eq_Some_conv)
  from Cons.IH [OF rest] w show ?case by (simp add: write_at_length)
qed

lemma write_slots_set:
  "write_slots pf pm pp sps (tf, tm, tp) = Some (tf', tm', tp') \<Longrightarrow> set tf' \<subseteq> set tf \<union> set pf"
proof (induction sps arbitrary: tf tm tp)
  case Nil
  then show ?case by simp
next
  case (Cons sp sps)
  obtain s p where sp: "sp = (s, p)" by (cases sp)
  from Cons.prems obtain f tf1 tm1 tp1 where
    r: "read_at pf p = Some f" and w: "write_at tf s f = Some tf1"
    and rest: "write_slots pf pm pp sps (tf1, tm1, tp1) = Some (tf', tm', tp')"
    by (auto simp: sp bind_eq_Some_conv)
  from Cons.IH [OF rest] write_at_set [OF w] read_at_mem [OF r] show ?case by blast
qed

lemma push_slots_length:
  "push_slots pf pm pp ps (tf, tm, tp) = Some (tf', tm', tp') \<Longrightarrow>
   length tf \<le> length tf' \<and> length tm \<le> length tm' \<and> length tp \<le> length tp'"
proof (induction ps arbitrary: tf tm tp)
  case Nil
  then show ?case by simp
next
  case (Cons p ps)
  from Cons.prems obtain f m ph where
    rest: "push_slots pf pm pp ps (tf @ [f], tm @ [m], tp @ [ph]) = Some (tf', tm', tp')"
    by (auto simp: bind_eq_Some_conv)
  from Cons.IH [OF rest] show ?case by simp
qed

lemma push_slots_set:
  "push_slots pf pm pp ps (tf, tm, tp) = Some (tf', tm', tp') \<Longrightarrow> set tf' \<subseteq> set tf \<union> set pf"
proof (induction ps arbitrary: tf tm tp)
  case Nil
  then show ?case by simp
next
  case (Cons p ps)
  from Cons.prems obtain f m ph where r: "read_at pf p = Some f" and
    rest: "push_slots pf pm pp ps (tf @ [f], tm @ [m], tp @ [ph]) = Some (tf', tm', tp')"
    by (auto simp: bind_eq_Some_conv)
  from Cons.IH [OF rest] read_at_mem [OF r] show ?case by auto
qed

lemma assign_tracks_length:
  "assign_tracks newTracks (pf, pm, pp) (tf, tm, tp) = Some ((pf', pm', pp'), (tf', tm', tp')) \<Longrightarrow>
   length tf' = length tf \<and> length tm' = length tm \<and> length tp' = length tp"
  by (auto simp: assign_tracks_def Let_def bind_eq_Some_conv split: if_splits dest: write_slots_length)

lemma assign_tracks_set:
  "assign_tracks newTracks (pf, pm, pp) (tf, tm, tp) = Some ((pf', pm', pp'), (tf', tm', tp')) \<Longrightarrow>
   set tf' \<subseteq> set tf \<union> set pf \<and> set pf' \<subseteq> set pf"
  by (auto simp: assign_tracks_def Let_def bind_eq_Some_conv split: if_splits
      dest: write_slots_set erase_vector_set)

lemma spawn_tracks_length:
  "spawn_tracks tfreq (pf, pm, pp) (tf, tm, tp) = Some (tf', tm', tp') \<Longrightarrow>
   length tf \<le> length tf' \<and> length tm \<le> length tm' \<and> length tp \<le> length tp'"
  by (auto simp: spawn_tracks_def Let_def empty_slots_start split: if_splits dest: push_slots_length)

lemma spawn_tracks_set:
  "spawn_tracks tfreq (pf, pm, pp) (tf, tm, tp) = Some (tf', tm', tp') \<Longrightarrow>
   set tf' \<subseteq> set tf \<union> set pf"
  by (auto simp: spawn_tracks_def Let_def empty_slots_start split: if_splits dest: push_slots_set)

subsection \<open>Sorting\<close>

lemma set_sort_insert: "set (sort_insert lt x xs) = insert x (set xs)"
  by (induction xs) auto

lemma set_std_sort: "set (std_sort lt xs) = set xs"
  unfolding std_sort_def by (induction xs) (simp_all add: set_sort_insert)

lemma length_sort_insert: "length (sort_insert lt x xs) = Suc (length xs)"
  by (induction xs) auto

lemma length_std_sort: "length (std_sort lt xs) = length xs"
  unfolding std_sort_def by (induction xs) (simp_all add: length_sort_insert)

lemma sorted_sort_insert:
  "sorted_wrt (\<lambda>p q. snd p \<le> snd q) ps \<Longrightarrow>
   sorted_wrt (\<lambda>p q. snd p \<le> snd q) (sort_insert comparator (x :: mypair) ps)"
  by (induction ps) (auto simp: comparator_def set_sort_insert)

lemma sorted_std_sort:
  "sorted_wrt (\<lambda>p q. snd p \<le> snd q) (std_sort comparator (ps :: mypair list))"
  unfolding std_sort_def by (induction ps) (simp_all add: sorted_sort_insert)

lemma index_pairs_mem:
  "(i, x) \<in> set (index_pairs k v) \<Longrightarrow>
   int k \<le> i \<and> i < int (k + length v) \<and> v ! (nat i - k) = x"
proof (induction v arbitrary: k)
  case Nil
  then show ?case by simp
next
  case (Cons y v)
  show ?case
  proof (cases "(i, x) = (int k, y)")
    case True
    then show ?thesis by simp
  next
    case False
    with Cons.prems have "(i, x) \<in> set (index_pairs (Suc k) v)" by auto
    from Cons.IH [OF this] have b: "int (Suc k) \<le> i" "i < int (Suc k + length v)"
      and v: "v ! (nat i - Suc k) = x" by simp_all
    from b have "nat i - k = Suc (nat i - Suc k)" by linarith
    with b v show ?thesis by simp
  qed
qed

lemma length_index_pairs: "length (index_pairs k v) = length v"
  by (induction v arbitrary: k) simp_all

lemma length_sort_indexes: "length (sort_indexes [] v) = length v"
  by (simp add: sort_indexes_def length_std_sort length_index_pairs)

lemma sort_indexes_range:
  assumes "i \<in> set (sort_indexes [] v)"
  shows "0 \<le> i \<and> i < int (length v)"
proof -
  from assms obtain x where "(i, x) \<in> set (index_pairs 0 v)"
    by (auto simp: sort_indexes_def set_std_sort)
  from index_pairs_mem [OF this] show ?thesis by simp
qed

text \<open>The index order computed by \<open>sort_indexes\<close> is ascending in the values, for every input.\<close>

lemma sort_indexes_ascending:
  "sorted (map (\<lambda>i. v ! nat i) (sort_indexes [] v))"
proof -
  let ?ps = "std_sort comparator (index_pairs 0 v)"
  have "v ! nat (fst p) = snd p" if "p \<in> set ?ps" for p
  proof -
    from that have "(fst p, snd p) \<in> set (index_pairs 0 v)" by (simp add: set_std_sort)
    from index_pairs_mem [OF this] show ?thesis by simp
  qed
  then have "map (\<lambda>i. v ! nat i) (map fst ?ps) = map snd ?ps"
    by (simp add: map_eq_conv)
  moreover have "sorted (map snd ?ps)"
    using sorted_std_sort [of "index_pairs 0 v"] by (simp add: sorted_wrt_map)
  ultimately have "sorted (map (\<lambda>i. v ! nat i) (map fst ?ps))" by (simp only:)
  then show ?thesis by (simp only: sort_indexes_def append_Nil)
qed

subsection \<open>The spawn pass and the matching pass\<close>

text \<open>
  \<open>emptyt\<close> is always empty (\<open>empty_slots_start\<close>), so the spawn pass appends every peak
  that is left, in the order of \<open>peaksleft\<close>, and fills no slot.
\<close>

lemma push_slots_in_range:
  assumes "\<forall>p \<in> set ps. 0 \<le> p \<and> p < int (length pm)"
    and "length pf = length pm" and "length pp = length pm"
  shows "push_slots pf pm pp ps (tf, tm, tp)
         = Some (tf @ map (\<lambda>p. pf ! nat p) ps, tm @ map (\<lambda>p. pm ! nat p) ps,
                 tp @ map (\<lambda>p. pp ! nat p) ps)"
  using assms by (induction ps arbitrary: tf tm tp) (simp_all add: read_at_def)

lemma spawn_tracks_appends:
  assumes "length pf = length pm" and "length pp = length pm"
  shows "spawn_tracks tfreq (pf, pm, pp) (tf, tm, tp)
         = Some (tf @ map (\<lambda>p. pf ! nat p) (sort_indexes [] pm),
                 tm @ map (\<lambda>p. pm ! nat p) (sort_indexes [] pm),
                 tp @ map (\<lambda>p. pp ! nat p) (sort_indexes [] pm))"
proof (cases "pm = []")
  case True
  then show ?thesis
    by (simp add: spawn_tracks_def empty_slots_start sort_indexes_def std_sort_def)
next
  case False
  then have "0 < length (sort_indexes [] pm)" by (simp add: length_sort_indexes)
  moreover have "\<forall>p \<in> set (sort_indexes [] pm). 0 \<le> p \<and> p < int (length pm)"
    using sort_indexes_range by blast
  ultimately show ?thesis
    using assms by (simp add: spawn_tracks_def empty_slots_start push_slots_in_range)
qed

lemma indexes_where_none: "\<forall>x \<in> set v. \<not> P x \<Longrightarrow> indexes_where P k v = []"
  by (induction v arbitrary: k) simp_all

text \<open>
  Without an incoming track (no positive frequency in \<open>tfreq\<close>) and with peak vectors of
  equal length, the call stays inside its vectors, and its result is the resized output
  vectors followed by all peaks.
\<close>

lemma sinusoidalTracking_without_tracks:
  assumes "\<forall>f \<in> set tfreq. f \<le> 0"
    and "length peakFrequencies0 = length peakMags0"
    and "length peakPhases0 = length peakMags0"
  shows "sinusoidalTracking peakMags0 peakFrequencies0 peakPhases0 tfreq offset slope
           tfreqn0 tmagn0 tphasen0
         = Some \<lparr>peakMags = peakMags0, peakFrequencies = peakFrequencies0,
              peakPhases = peakPhases0,
              tfreqn = resize (length tfreq) tfreqn0
                         @ map (\<lambda>p. peakFrequencies0 ! nat p) (sort_indexes [] peakMags0),
              tmagn = resize (length tfreq) tmagn0
                         @ map (\<lambda>p. peakMags0 ! nat p) (sort_indexes [] peakMags0),
              tphasen = resize (length tfreq) tphasen0
                         @ map (\<lambda>p. peakPhases0 ! nat p) (sort_indexes [] peakMags0)\<rparr>"
proof -
  from assms(1) have "indexes_where (\<lambda>f. f > 0) 0 tfreq = []"
    by (intro indexes_where_none) (simp add: not_less)
  then have c: "continue_tracks off sl peakMags0 peakFrequencies0 tfreq
                = Some (replicate (length tfreq) (- 1))" for off sl
    by (simp add: continue_tracks_def)
  have "indexes_where (\<lambda>p. p \<noteq> - 1) 0 (replicate (length tfreq) (- 1 :: int)) = []"
    by (intro indexes_where_none) simp
  then have a: "assign_tracks (replicate (length tfreq) (- 1)) peaks outs = Some (peaks, outs)"
    for peaks outs
    by (simp add: assign_tracks_def split: prod.splits)
  show ?thesis
    by (simp add: sinusoidalTracking_def c a spawn_tracks_appends assms)
qed

text \<open>
  \<open>freqDistance\<close> starts at \<open>10^10\<close> and is only ever replaced by a larger value, so a peak
  whose tolerance \<open>freqDevOffset + freqDevSlope * frequency\<close> is at most \<open>10^10\<close> is never
  matched. With the values 20 and 0.01 these are the peaks up to 999999998000 Hz: when all
  peaks are below, no slot of the incoming length is written.
\<close>

lemma closest_track_lower:
  "closest_track pfreqt tfreq i ts k (c, d) = Some (c', d') \<Longrightarrow> d \<le> d'"
proof (induction ts arbitrary: k c d)
  case Nil
  then show ?case by simp
next
  case (Cons t ts)
  from Cons.prems obtain p f where
    step: "(if d < \<bar>p - f\<bar> then closest_track pfreqt tfreq i ts (Suc k) (int k, \<bar>p - f\<bar>)
           else closest_track pfreqt tfreq i ts (Suc k) (c, d)) = Some (c', d')"
    by (auto simp: bind_eq_Some_conv)
  show ?case
  proof (cases "d < \<bar>p - f\<bar>")
    case True
    with step Cons.IH [of "Suc k" "int k" "\<bar>p - f\<bar>"] show ?thesis by simp
  next
    case False
    with step Cons.IH [of "Suc k" c d] show ?thesis by simp
  qed
qed

lemma match_peaks_none:
  assumes "\<forall>p \<in> set pfreqt. off + sl * p \<le> 10 ^ 10"
    and "match_peaks off sl pfreqt tfreq magOrder (incomingTracks, newTracks) = Some (inc', new')"
  shows "new' = newTracks"
  using assms(2)
proof (induction magOrder)
  case Nil
  then show ?case by simp
next
  case (Cons i magOrder)
  show ?case
  proof (cases "length incomingTracks = 0")
    case True
    with Cons.prems show ?thesis by simp
  next
    case False
    with Cons.prems obtain c d p where
      cl: "closest_track pfreqt tfreq i incomingTracks 0 (0, 10 ^ 10) = Some (c, d)"
      and p: "read_at pfreqt i = Some p"
      and step: "(if d < off + sl * p
                  then do {
                    t \<leftarrow> read_at incomingTracks c;
                    newTracks' \<leftarrow> write_at newTracks t i;
                    incomingTracks' \<leftarrow> erase_at incomingTracks c;
                    match_peaks off sl pfreqt tfreq magOrder (incomingTracks', newTracks')
                  }
                  else match_peaks off sl pfreqt tfreq magOrder (incomingTracks, newTracks))
                 = Some (inc', new')"
      by (auto simp: bind_eq_Some_conv)
    from closest_track_lower [OF cl] have "10 ^ 10 \<le> d" .
    moreover from read_at_mem [OF p] assms(1) have "off + sl * p \<le> 10 ^ 10" by blast
    ultimately have "\<not> d < off + sl * p" by simp
    with step Cons.IH show ?thesis by simp
  qed
qed

lemma continue_tracks_none:
  assumes "\<forall>p \<in> set peakFrequencies0. off + sl * p \<le> 10 ^ 10"
    and "continue_tracks off sl peakMags0 peakFrequencies0 tfreq = Some newTracks"
  shows "newTracks = replicate (length tfreq) (- 1)"
  using assms(2) match_peaks_none [OF assms(1)]
  by (auto simp: continue_tracks_def Let_def split: if_splits)

lemma push_slots_prefix:
  "push_slots pf pm pp ps (tf, tm, tp) = Some (tf', tm', tp') \<Longrightarrow> take (length tf) tf' = tf"
proof (induction ps arbitrary: tf tm tp)
  case Nil
  then show ?case by simp
next
  case (Cons p ps)
  from Cons.prems obtain f m ph where
    rest: "push_slots pf pm pp ps (tf @ [f], tm @ [m], tp @ [ph]) = Some (tf', tm', tp')"
    by (auto simp: bind_eq_Some_conv)
  from Cons.IH [OF rest] have "take (length tf) (take (Suc (length tf)) tf') = take (length tf) (tf @ [f])"
    by simp
  then show ?case by (simp add: min_def)
qed

lemma spawn_tracks_prefix:
  "spawn_tracks tfreq (pf, pm, pp) (tf, tm, tp) = Some (tf', tm', tp') \<Longrightarrow>
   take (length tf) tf' = tf"
  by (auto simp: spawn_tracks_def Let_def empty_slots_start split: if_splits
      dest: push_slots_prefix)

lemma sinusoidalTracking_never_continues:
  assumes "\<forall>p \<in> set peakFrequencies0. p \<le> 999999998000"
    and "sinusoidalTracking peakMags0 peakFrequencies0 peakPhases0 tfreq offset slope
           tfreqn0 tmagn0 tphasen0 = Some r"
  shows "take (length tfreq) (tfreqn r) = resize (length tfreq) tfreqn0"
proof -
  from assms(2) obtain newTracks pf pm pp tf2 tm2 tp2 tf3 tm3 tp3 where
    c: "continue_tracks 20 (1 / 100) peakMags0 peakFrequencies0 tfreq = Some newTracks"
    and a: "assign_tracks newTracks (peakFrequencies0, peakMags0, peakPhases0)
          (resize (length tfreq) tfreqn0, resize (length tfreq) tmagn0,
           resize (length tfreq) tphasen0) = Some ((pf, pm, pp), (tf2, tm2, tp2))"
    and s: "spawn_tracks tfreq (pf, pm, pp) (tf2, tm2, tp2) = Some (tf3, tm3, tp3)"
    and r: "r = \<lparr>peakMags = pm, peakFrequencies = pf, peakPhases = pp,
                 tfreqn = tf3, tmagn = tm3, tphasen = tp3\<rparr>"
    by (auto simp: sinusoidalTracking_def bind_eq_Some_conv)
  have "indexes_where (\<lambda>p. p \<noteq> - 1) 0 (replicate (length tfreq) (- 1 :: int)) = []"
    by (intro indexes_where_none) simp
  moreover from assms(1) have "\<forall>p \<in> set peakFrequencies0. 20 + (1 / 100) * p \<le> 10 ^ 10"
    by auto
  from continue_tracks_none [OF this c] have "newTracks = replicate (length tfreq) (- 1)" .
  ultimately have "tf2 = resize (length tfreq) tfreqn0"
    using a by (simp add: assign_tracks_def)
  with spawn_tracks_prefix [OF s] r show ?thesis by (simp add: length_resize)
qed

subsection \<open>Facts about the phase interpolation\<close>

lemma to_int_half: "0 \<le> k \<Longrightarrow> to_int (0.5 + real_of_int k) = k"
  by (simp add: to_int_def floor_eq_iff)

lemma interpolate_peak_bin0:
  assumes "2 \<le> length fftphase"
  shows "interpolate_peak params fftphase 0 = Some (fftphase ! 0)"
proof -
  have idx: "to_int (1 / 2) = 0" by (simp add: to_int_def)
  from assms have "fftphase \<noteq> []" by auto
  with assms show ?thesis
    by (simp add: interpolate_peak_def idx read_at_def)
qed

lemma interpolate_peak_last:
  assumes "1 \<le> length fftphase"
    and "real (length fftphase) * (freq / (sampleRate params / 2)) = real (length fftphase) - 1"
  shows "interpolate_peak params fftphase freq = Some (fftphase ! (length fftphase - 1))"
proof -
  let ?n = "int (length fftphase)"
  have pos: "real_of_int ?n * (freq / (sampleRate params / 2)) = real_of_int (?n - 1)"
    using assms by simp
  have idx: "to_int (0.5 + real_of_int (?n - 1)) = ?n - 1"
    using assms(1) by (intro to_int_half) linarith
  have nat: "nat (?n - 1) = length fftphase - 1" by simp
  from assms(1) have "fftphase \<noteq> []" by auto
  then show ?thesis
    unfolding interpolate_peak_def Let_def pos idx
    by (simp add: read_at_def nat del: of_int_diff)
qed

lemma interpolate_from_keeps:
  "interpolate_from params fftphase k fs pp = Some out \<Longrightarrow>
   length out = length pp \<and> (\<forall>m<k. out ! m = pp ! m)"
proof (induction fs arbitrary: k pp)
  case Nil
  then show ?case by simp
next
  case (Cons f fs)
  from Cons.prems obtain ph pp1 where w: "write_at pp (int k) ph = Some pp1"
    and rest: "interpolate_from params fftphase (Suc k) fs pp1 = Some out"
    by (auto simp: bind_eq_Some_conv)
  from w have pp1: "pp1 = pp[k := ph]" by (auto simp: write_at_def split: if_splits)
  from Cons.IH [OF rest] show ?case by (simp add: pp1)
qed

lemma interpolate_from_nth:
  "interpolate_from params fftphase k fs pp = Some out \<Longrightarrow> j < length fs \<Longrightarrow>
   interpolate_peak params fftphase (fs ! j) = Some (out ! (k + j))"
proof (induction fs arbitrary: k pp j)
  case Nil
  then show ?case by simp
next
  case (Cons f fs)
  from Cons.prems(1) obtain ph pp1 where p: "interpolate_peak params fftphase f = Some ph"
    and w: "write_at pp (int k) ph = Some pp1"
    and rest: "interpolate_from params fftphase (Suc k) fs pp1 = Some out"
    by (auto simp: bind_eq_Some_conv)
  from w have pp1: "pp1 = pp[k := ph]" and k: "k < length pp"
    by (auto simp: write_at_def split: if_splits)
  show ?case
  proof (cases j)
    case 0
    from interpolate_from_keeps [OF rest] have "out ! k = pp1 ! k" by simp
    with p k show ?thesis by (simp add: 0 pp1)
  next
    case (Suc j')
    with Cons.prems(2) have "j' < length fs" by simp
    from Cons.IH [OF rest this] show ?thesis by (simp add: Suc)
  qed
qed

text \<open>
  Where the interpolator stays inside the phase array: for a frequency that is not
  negative and a position below \<open>fftSize - 1/2\<close>.
\<close>

lemma interpolate_peak_in_range:
  assumes "0 < sampleRate params" and "0 \<le> freq"
    and "real (length fftphase) * (freq / (sampleRate params / 2)) < real (length fftphase) - 1 / 2"
  shows "\<exists>ph. interpolate_peak params fftphase freq = Some ph"
proof -
  let ?n = "int (length fftphase)"
  define pos where "pos = real_of_int ?n * (freq / (sampleRate params / 2))"
  define idx where "idx = to_int (0.5 + pos)"
  from assms(1,2) have pos0: "0 \<le> pos" by (simp add: pos_def)
  from assms(3) have posn: "pos < real_of_int ?n - 1 / 2" by (simp add: pos_def)
  from pos0 have idx: "idx = \<lfloor>0.5 + pos\<rfloor>" by (simp add: idx_def to_int_def)
  from pos0 have lo: "0 \<le> idx" unfolding idx by simp
  from posn have "0.5 + pos < real_of_int ?n" by simp
  then have hi: "idx < ?n" unfolding idx by (simp add: floor_less_iff)
  from lo hi show ?thesis
    unfolding interpolate_peak_def Let_def pos_def [symmetric] idx_def [symmetric]
    by (auto simp: read_at_def)
qed

lemma sublist_middle: "sublist xs (ps @ qs @ xs @ ss)"
  unfolding sublist_def by (rule exI [of _ "ps @ qs"], rule exI [of _ ss]) simp

text \<open>Concrete runs, evaluated by unfolding the definitions.\<close>

lemmas tracking_defs =
  sinusoidalTracking_def continue_tracks_def assign_tracks_def spawn_tracks_def
  resize_def sort_indexes_def std_sort_def comparator_def empty_slots.simps
  read_at_def write_at_def erase_at_def

lemmas phase_defs =
  default_parameters_def phaseInterpolation_def interpolate_peak_def to_int_def resize_def
  read_at_def write_at_def

lemmas configure_defs = configure_def default_parameters_def toLower_def lower_char_def

text \<open>
  A run in which the second peak is matched to the track of slot 1: the peak and the
  track are at \<open>2^41\<close> Hz, so \<open>freqDistance\<close> stays \<open>10^10\<close>, and the threshold
  \<open>20 + 0.01 * 2^41\<close> is larger than that. The matched peak is erased from the peak
  vectors, the two other peaks are appended.
\<close>

lemma tracking_run_matched:
  "sinusoidalTracking [3, 4, 5] [7, 2199023255552, 4398046511104] [1, 2, 3]
     [0, 2199023255552] 20 0.01 [] [] []
   = Some \<lparr>peakMags = [3, 5], peakFrequencies = [7, 4398046511104], peakPhases = [1, 3],
        tfreqn = [0, 2199023255552, 7, 4398046511104], tmagn = [0, 4, 3, 5],
        tphasen = [0, 2, 1, 3]\<rparr>"
  by (simp add: tracking_defs)

subsection \<open>Track continuation\<close>

text \<open>
  C10. The track continuator overwrites its arguments \<open>freqDevOffset\<close> and \<open>freqDevSlope\<close>
  with 20 and 0.01 before using them (lines 157--158), so for fixed peak and track inputs
  the outcome is the same for any two values of these two arguments.
\<close>

theorem sinusoidalTracking_ignores_freqDev:
  "sinusoidalTracking peakMags0 peakFrequencies0 peakPhases0 tfreq offset1 slope1 tfreqn0 tmagn0 tphasen0
   = sinusoidalTracking peakMags0 peakFrequencies0 peakPhases0 tfreq offset2 slope2 tfreqn0 tmagn0 tphasen0"
  by (simp add: sinusoidalTracking_def)

text \<open>
  C7. In every call of the track continuator that stays inside its vectors, each of the
  three output slot vectors is at least as long as the incoming track frequency vector:
  they are resized to that length and afterwards only written in place or appended to.
\<close>

theorem sinusoidalTracking_never_shrinks:
  assumes "sinusoidalTracking peakMags0 peakFrequencies0 peakPhases0 tfreq offset slope
             tfreqn0 tmagn0 tphasen0 = Some r"
  shows "length tfreq \<le> length (tfreqn r) \<and> length tfreq \<le> length (tmagn r)
         \<and> length tfreq \<le> length (tphasen r)"
proof -
  from assms obtain newTracks pf pm pp tf2 tm2 tp2 tf3 tm3 tp3 where
    a: "assign_tracks newTracks (peakFrequencies0, peakMags0, peakPhases0)
          (resize (length tfreq) tfreqn0, resize (length tfreq) tmagn0,
           resize (length tfreq) tphasen0) = Some ((pf, pm, pp), (tf2, tm2, tp2))"
    and s: "spawn_tracks tfreq (pf, pm, pp) (tf2, tm2, tp2) = Some (tf3, tm3, tp3)"
    and r: "r = \<lparr>peakMags = pm, peakFrequencies = pf, peakPhases = pp,
                 tfreqn = tf3, tmagn = tm3, tphasen = tp3\<rparr>"
    by (auto simp: sinusoidalTracking_def bind_eq_Some_conv)
  from assign_tracks_length [OF a]
  have "length tf2 = length tfreq" "length tm2 = length tfreq" "length tp2 = length tfreq"
    by (simp_all add: length_resize)
  with spawn_tracks_length [OF s] r show ?thesis by simp
qed

theorem sinusoidalTracking_never_shrinks_witness:
  "sinusoidalTracking [3, 4, 5] [7, 2199023255552, 4398046511104] [1, 2, 3]
     [0, 2199023255552] 20 0.01 [] [] []
   = Some \<lparr>peakMags = [3, 5], peakFrequencies = [7, 4398046511104], peakPhases = [1, 3],
        tfreqn = [0, 2199023255552, 7, 4398046511104], tmagn = [0, 4, 3, 5],
        tphasen = [0, 2, 1, 3]\<rparr>
   \<and> length [0, 2199023255552 :: real] \<le> length [0, 2199023255552, 7, 4398046511104 :: real]"
  using sinusoidalTracking_never_shrinks [OF tracking_run_matched] tracking_run_matched
  by simp

text \<open>
  C6. In every call of the track continuator whose three output vectors start empty and
  that stays inside its vectors, every frequency of the output slot vector is 0 or the
  frequency of one of the peaks passed to the call.
\<close>

theorem sinusoidalTracking_conservation:
  assumes "sinusoidalTracking peakMags0 peakFrequencies0 peakPhases0 tfreq offset slope
             [] [] [] = Some r"
  shows "\<forall>f \<in> set (tfreqn r). f = 0 \<or> f \<in> set peakFrequencies0"
proof -
  from assms obtain newTracks pf pm pp tf2 tm2 tp2 tf3 tm3 tp3 where
    a: "assign_tracks newTracks (peakFrequencies0, peakMags0, peakPhases0)
          (resize (length tfreq) [], resize (length tfreq) [], resize (length tfreq) [])
        = Some ((pf, pm, pp), (tf2, tm2, tp2))"
    and s: "spawn_tracks tfreq (pf, pm, pp) (tf2, tm2, tp2) = Some (tf3, tm3, tp3)"
    and r: "r = \<lparr>peakMags = pm, peakFrequencies = pf, peakPhases = pp,
                 tfreqn = tf3, tmagn = tm3, tphasen = tp3\<rparr>"
    by (auto simp: sinusoidalTracking_def bind_eq_Some_conv)
  from assign_tracks_set [OF a] set_resize_Nil [of "length tfreq"]
  have tf2: "set tf2 \<subseteq> {0} \<union> set peakFrequencies0" and pf: "set pf \<subseteq> set peakFrequencies0"
    by auto
  from spawn_tracks_set [OF s] tf2 pf have "set tf3 \<subseteq> {0} \<union> set peakFrequencies0"
    by blast
  with r show ?thesis by auto
qed

theorem sinusoidalTracking_conservation_witness:
  "sinusoidalTracking [3, 4, 5] [7, 2199023255552, 4398046511104] [1, 2, 3]
     [0, 2199023255552] 20 0.01 [] [] []
   = Some \<lparr>peakMags = [3, 5], peakFrequencies = [7, 4398046511104], peakPhases = [1, 3],
        tfreqn = [0, 2199023255552, 7, 4398046511104], tmagn = [0, 4, 3, 5],
        tphasen = [0, 2, 1, 3]\<rparr>
   \<and> set [0, 2199023255552, 7, 4398046511104 :: real]
       \<subseteq> insert 0 (set [7, 2199023255552, 4398046511104])"
  using sinusoidalTracking_conservation [OF tracking_run_matched] tracking_run_matched
  by simp

text \<open>
  C1 (the code departs from it). With the incoming track at 300 Hz and one peak at 305 Hz:
  the search of lines 223--230 starts from \<open>freqDistance = 10^10\<close> and replaces it only by a
  larger distance, so \<open>freqDistance\<close> stays \<open>10^10\<close>, the test of line 231 fails, slot 0 keeps
  the sentinel 0 and the peak is appended as a new slot 1.
\<close>

theorem sinusoidalTracking_scenario_C:
  "sinusoidalTracking [3] [305] [1] [300] 20 0.01 [] [] []
   = Some \<lparr>peakMags = [3], peakFrequencies = [305], peakPhases = [1],
        tfreqn = [0, 305], tmagn = [0, 3], tphasen = [0, 1]\<rparr>"
  by (simp add: tracking_defs)

text \<open>
  C2 (the code departs from it). With four empty incoming slots and the peaks (300 Hz,
  magnitude 5) and (900 Hz, magnitude 2): the loop of lines 283--286 runs while
  \<open>i < emptyt.size()\<close>, which is 0, so no empty slot is found; slots 0 to 3 keep the
  sentinel and both peaks are appended, the smaller magnitude first.
\<close>

theorem sinusoidalTracking_scenario_B:
  "sinusoidalTracking [5, 2] [300, 900] [1, 2] [0, 0, 0, 0] 20 0.01 [] [] []
   = Some \<lparr>peakMags = [5, 2], peakFrequencies = [300, 900], peakPhases = [1, 2],
        tfreqn = [0, 0, 0, 0, 900, 300], tmagn = [0, 0, 0, 0, 2, 5],
        tphasen = [0, 0, 0, 0, 2, 1]\<rparr>"
  by (simp add: tracking_defs)

text \<open>
  C3 (the code departs from it). \<open>comparator\<close> is \<open>l.second < r.second\<close> and
  \<open>sort_indexes\<close> is called on the magnitudes themselves, so the order is ascending: for
  the magnitudes 1 and 2 the peak of magnitude 1 comes first.
\<close>

theorem sort_indexes_ascending_example:
  "sort_indexes [] [1, 2] = [0, 1] \<and> sort_indexes [] [2, 1] = [1, 0]"
  by (simp add: sort_indexes_def std_sort_def comparator_def)

subsection \<open>Phase interpolation\<close>

text \<open>
  C8. For a phase array of at least two bins and a positive sample rate: a peak of
  frequency 0 (bin 0), or one whose fractional position \<open>fftSize * freq / (sampleRate/2)\<close>
  is exactly \<open>fftSize - 1\<close> (the last bin), gets the raw phase of that bin. The loop body
  returns it, and so does every call of the interpolator that stays inside its vectors,
  at the index of that peak.
\<close>

theorem phaseInterpolation_boundary:
  assumes "2 \<le> length fftphase" and "0 < sampleRate params"
    and "i < length peakFrequencies0"
    and "peakFrequencies0 ! i = 0 \<and> bin = 0
         \<or> real (length fftphase) * (peakFrequencies0 ! i / (sampleRate params / 2))
             = real (length fftphase) - 1 \<and> bin = length fftphase - 1"
  shows "interpolate_peak params fftphase (peakFrequencies0 ! i) = Some (fftphase ! bin)
         \<and> (\<forall>out. phaseInterpolation params fftphase peakFrequencies0 peakPhases0 = Some out
                \<longrightarrow> out ! i = fftphase ! bin)"
proof -
  have peak: "interpolate_peak params fftphase (peakFrequencies0 ! i) = Some (fftphase ! bin)"
    using assms(1,4) interpolate_peak_bin0 [of fftphase params]
      interpolate_peak_last [of fftphase "peakFrequencies0 ! i" params]
    by auto
  moreover have "out ! i = fftphase ! bin"
    if "phaseInterpolation params fftphase peakFrequencies0 peakPhases0 = Some out" for out
    using interpolate_from_nth [OF that [unfolded phaseInterpolation_def] assms(3)] peak
    by simp
  ultimately show ?thesis by blast
qed

theorem phaseInterpolation_boundary_witness:
  "2 \<le> length [1, 2, 3 :: real] \<and> 0 < sampleRate default_parameters
   \<and> (0 :: nat) < length [0, 14700 :: real] \<and> (1 :: nat) < length [0, 14700 :: real]
   \<and> [0, 14700 :: real] ! 0 = 0
   \<and> real (length [1, 2, 3 :: real]) * ([0, 14700] ! 1 / (sampleRate default_parameters / 2))
       = real (length [1, 2, 3 :: real]) - 1
   \<and> interpolate_peak default_parameters [1, 2, 3] 0 = Some 1
   \<and> interpolate_peak default_parameters [1, 2, 3] 14700 = Some 3
   \<and> phaseInterpolation default_parameters [1, 2, 3] [0, 14700] [] = Some [1, 3]"
proof -
  have h1: "2 \<le> length [1, 2, 3 :: real]" by simp
  have h2: "0 < sampleRate default_parameters" by (simp add: default_parameters_def)
  have i0: "(0 :: nat) < length [0, 14700 :: real]" by simp
  have i1: "(1 :: nat) < length [0, 14700 :: real]" by simp
  have f0: "[0, 14700 :: real] ! 0 = 0 \<and> (0 :: nat) = 0
            \<or> real (length [1, 2, 3 :: real]) * ([0, 14700] ! 0 / (sampleRate default_parameters / 2))
                = real (length [1, 2, 3 :: real]) - 1 \<and> (0 :: nat) = length [1, 2, 3 :: real] - 1"
    by simp
  have f1: "[0, 14700 :: real] ! 1 = 0 \<and> (2 :: nat) = 0
            \<or> real (length [1, 2, 3 :: real]) * ([0, 14700] ! 1 / (sampleRate default_parameters / 2))
                = real (length [1, 2, 3 :: real]) - 1 \<and> (2 :: nat) = length [1, 2, 3 :: real] - 1"
    by (simp add: default_parameters_def)
  have run: "phaseInterpolation default_parameters [1, 2, 3] [0, 14700] [] = Some [1, 3]"
    using pi_ge_two by (simp add: phase_defs)
  from phaseInterpolation_boundary [OF h1 h2 i0 f0, of "[]"]
    phaseInterpolation_boundary [OF h1 h2 i1 f1, of "[]"] run h2
  show ?thesis by (simp add: default_parameters_def)
qed

text \<open>
  C4 (the code departs from it). At the upper end of the range, \<open>freq = sampleRate/2\<close>, the
  position is \<open>fftSize\<close>, so \<open>idx = fftSize\<close> and \<open>a = 0\<close>: neither guard holds and line 375
  reads \<open>fftphase[fftSize]\<close>, one past the last element. Here with four bins and the
  default sample rate.
\<close>

theorem phaseInterpolation_nyquist_out_of_range:
  "phaseInterpolation default_parameters [0, 0, 0, 0] [22050] [] = None"
  by (simp add: phase_defs)

text \<open>
  C5 (the code departs from it). A peak at position 0.25 between bins 0 and 1. With the
  phases \<open>-2\<close> and \<open>2\<close> the difference 4 exceeds \<open>\<pi>\<close> and the result is the interpolated
  value \<open>0.25 * 2 + 0.75 * (-2) = -1\<close>, not the raw phase \<open>-2\<close>; with the phases 0 and 1 the
  difference is below \<open>\<pi>\<close> and the result is the raw phase 0, not an interpolated value.
\<close>

theorem phaseInterpolation_guard_reversed:
  "phaseInterpolation default_parameters [- 2, 2] [2756.25] [] = Some [- 1]
   \<and> phaseInterpolation default_parameters [0, 1] [2756.25] [] = Some [0]"
  using pi_less_4 pi_ge_two by (simp add: phase_defs)

subsection \<open>Configuration\<close>

text \<open>
  C9, as amended. With the ordering mode lower-cased:
  if it is neither \<open>magnitude\<close> nor \<open>frequency\<close>, \<open>configure\<close> throws; the message is
  \<open>Unsupported ordering type: '\<close>, the lower-cased mode and a closing quote, so it contains
  the lower-cased mode; the Peak Picker is not called and its state is the one before the
  call, whatever the Peak Picker is.
  If it is \<open>magnitude\<close>, the outcome of \<open>configure\<close> is the outcome of the Peak Picker's
  \<open>configure\<close> on the arguments of lines 111--117 with the order \<open>amplitude\<close>, its
  descending-amplitude order; if it is \<open>frequency\<close>, with the order \<open>position\<close>, its
  ascending-position order.
  So \<open>configure\<close> throws if and only if the mode is neither of the two or the Peak Picker
  throws on the arguments passed to it.
\<close>

theorem configure_orderBy:
  "(toLower (orderBy params) \<noteq> ''magnitude'' \<and> toLower (orderBy params) \<noteq> ''frequency''
      \<longrightarrow> configure peakDetect_configure params peakDetect
            = (Inl (EssentiaException
                 (''Unsupported ordering type: '' @ [CHR 0x27] @ toLower (orderBy params) @ [CHR 0x27])),
               peakDetect)
          \<and> sublist (toLower (orderBy params))
              (''Unsupported ordering type: '' @ [CHR 0x27] @ toLower (orderBy params) @ [CHR 0x27]))
   \<and> (toLower (orderBy params) = ''magnitude''
      \<longrightarrow> configure peakDetect_configure params peakDetect
            = peakDetect_configure
                \<lparr>pd_interpolate = True, pd_range = sampleRate params / 2,
                 pd_maxPeaks = maxPeaks params, pd_minPosition = minFrequency params,
                 pd_maxPosition = maxFrequency params,
                 pd_threshold = magnitudeThreshold params, pd_orderBy = ''amplitude''\<rparr> peakDetect
          \<and> peak_picker_order ''amplitude'' = Some DescendingAmplitude)
   \<and> (toLower (orderBy params) = ''frequency''
      \<longrightarrow> configure peakDetect_configure params peakDetect
            = peakDetect_configure
                \<lparr>pd_interpolate = True, pd_range = sampleRate params / 2,
                 pd_maxPeaks = maxPeaks params, pd_minPosition = minFrequency params,
                 pd_maxPosition = maxFrequency params,
                 pd_threshold = magnitudeThreshold params, pd_orderBy = ''position''\<rparr> peakDetect
          \<and> peak_picker_order ''position'' = Some AscendingPosition)
   \<and> ((\<exists>e. fst (configure peakDetect_configure params peakDetect) = Inl e)
      \<longleftrightarrow> (toLower (orderBy params) \<noteq> ''magnitude'' \<and> toLower (orderBy params) \<noteq> ''frequency'')
          \<or> (\<exists>e. fst (peakDetect_configure
                \<lparr>pd_interpolate = True, pd_range = sampleRate params / 2,
                 pd_maxPeaks = maxPeaks params, pd_minPosition = minFrequency params,
                 pd_maxPosition = maxFrequency params,
                 pd_threshold = magnitudeThreshold params,
                 pd_orderBy = (if toLower (orderBy params) = ''magnitude'' then ''amplitude''
                               else ''position'')\<rparr> peakDetect) = Inl e))"
proof -
  have "sublist (toLower (orderBy params))
          (''Unsupported ordering type: '' @ [CHR 0x27] @ toLower (orderBy params) @ [CHR 0x27])"
    by (rule sublist_middle)
  then show ?thesis
    by (simp add: configure_def Let_def peak_picker_order_def)
qed

theorem configure_orderBy_witness:
  "toLower ''Magnitude'' = ''magnitude'' \<and> toLower ''FREQUENCY'' = ''frequency''
   \<and> toLower ''XYZ'' \<noteq> ''magnitude'' \<and> toLower ''XYZ'' \<noteq> ''frequency''
   \<and> fst (configure (peak_picker_configure ''malformed range'')
            (default_parameters\<lparr>orderBy := ''Magnitude''\<rparr>) None) = Inr ()
   \<and> map_option pd_orderBy
        (snd (configure (peak_picker_configure ''malformed range'')
                (default_parameters\<lparr>orderBy := ''Magnitude''\<rparr>) None))
       = Some ''amplitude''
   \<and> map_option pd_orderBy
        (snd (configure (peak_picker_configure ''malformed range'')
                (default_parameters\<lparr>orderBy := ''FREQUENCY''\<rparr>) None))
       = Some ''position''
   \<and> configure (peak_picker_configure ''malformed range'')
        (default_parameters\<lparr>orderBy := ''XYZ''\<rparr>) None
       = (Inl (EssentiaException (''Unsupported ordering type: '' @ [CHR 0x27] @ ''xyz'' @ [CHR 0x27])),
          None)
   \<and> configure (peak_picker_configure ''malformed range'')
        (default_parameters\<lparr>minFrequency := 6000\<rparr>) None
       = (Inl (EssentiaException ''malformed range''), None)"
proof -
  have m: "toLower (orderBy (default_parameters\<lparr>orderBy := ''Magnitude''\<rparr>)) = ''magnitude''"
    by (simp add: toLower_def lower_char_def)
  have f: "toLower (orderBy (default_parameters\<lparr>orderBy := ''FREQUENCY''\<rparr>)) = ''frequency''"
    by (simp add: toLower_def lower_char_def)
  have x: "toLower (orderBy (default_parameters\<lparr>orderBy := ''XYZ''\<rparr>)) = ''xyz''"
    by (simp add: toLower_def lower_char_def)
  have d: "toLower (orderBy (default_parameters\<lparr>minFrequency := 6000\<rparr>)) = ''frequency''"
    by (simp add: default_parameters_def toLower_def lower_char_def)
  from configure_orderBy
         [of "default_parameters\<lparr>orderBy := ''Magnitude''\<rparr>"
             "peak_picker_configure ''malformed range''" None]
    configure_orderBy
         [of "default_parameters\<lparr>orderBy := ''FREQUENCY''\<rparr>"
             "peak_picker_configure ''malformed range''" None]
    configure_orderBy
         [of "default_parameters\<lparr>orderBy := ''XYZ''\<rparr>"
             "peak_picker_configure ''malformed range''" None]
    configure_orderBy
         [of "default_parameters\<lparr>minFrequency := 6000\<rparr>"
             "peak_picker_configure ''malformed range''" None]
  show ?thesis
    unfolding m f x d
    by (simp add: toLower_def lower_char_def default_parameters_def peak_picker_configure_def)
qed

text \<open>
  C9 as stated fails in two places. Where the mode has an upper-case letter the message
  does not contain it as given: for the mode \<open>XYZ\<close> the message names \<open>xyz\<close> and does not
  contain \<open>XYZ\<close>. And a supported mode does not exclude an error: with the default mode
  \<open>frequency\<close>, a minimum frequency of 6000 Hz and the default maximum of 5000 Hz, the Peak
  Picker that refuses a malformed range throws, and \<open>configure\<close> with it.
\<close>

theorem configure_message_counterexample:
  "configure (peak_picker_configure ''malformed range'')
     (default_parameters\<lparr>orderBy := ''XYZ''\<rparr>) None
     = (Inl (EssentiaException (''Unsupported ordering type: '' @ [CHR 0x27] @ ''xyz'' @ [CHR 0x27])),
        None)
   \<and> \<not> sublist ''XYZ'' (''Unsupported ordering type: '' @ [CHR 0x27] @ ''xyz'' @ [CHR 0x27])
   \<and> toLower (orderBy (default_parameters\<lparr>minFrequency := 6000\<rparr>)) = ''frequency''
   \<and> configure (peak_picker_configure ''malformed range'')
        (default_parameters\<lparr>minFrequency := 6000\<rparr>) None
       = (Inl (EssentiaException ''malformed range''), None)"
  by (simp add: configure_defs peak_picker_configure_def sublist_code)

end
